theory Spec2Isabelle
  imports Main "HOL-Library.AList"
begin

section \<open>Values, timestamps and device snapshots\<close>

text \<open>
  A Python \<^verbatim>\<open>datetime\<close> is modelled by the number of microseconds of wall-clock time
  since 0001-01-01T00:00:00 (the proleptic Gregorian calendar of the \<^verbatim>\<open>datetime\<close>
  module has no leap seconds, so the hour and the minute are plain quotients), and a
  \<^verbatim>\<open>timedelta\<close> by a number of microseconds. The upper bound of \<^verbatim>\<open>datetime\<close> (year 9999) is
  not modelled.
\<close>

type_synonym datetime = int

definition hour :: "datetime \<Rightarrow> int" where
  "hour t = (t div 3600000000) mod 24"

definition minute :: "datetime \<Rightarrow> int" where
  "minute t = (t div 60000000) mod 60"

definition timedelta_hours :: "int \<Rightarrow> int" where
  "timedelta_hours h = h * 3600000000"

definition timedelta_minutes :: "int \<Rightarrow> int" where
  "timedelta_minutes m = m * 60000000"

definition timedelta_seconds :: "int \<Rightarrow> int" where
  "timedelta_seconds n = n * 1000000"

text \<open>The constants of \<^verbatim>\<open>service.py\<close>.\<close>

definition SCHEDULE_OK :: int where
  "SCHEDULE_OK = 2"

definition SCHEDULE_NOK :: int where
  "SCHEDULE_NOK = 1"

definition HRS_BETWEEN_LOGIN :: int where
  "HRS_BETWEEN_LOGIN = timedelta_hours 2"

definition RETRY_DELAY_SECONDS :: int where
  "RETRY_DELAY_SECONDS = 60"

definition ONLINE :: string where
  "ONLINE = ''Online''"

definition OFFLINE :: string where
  "OFFLINE = ''Offline''"

text \<open>
  The values carried by a snapshot are heterogeneous; integers, strings and \<^verbatim>\<open>None\<close> are
  modelled (floating point readings are not).
\<close>

datatype pyval = PyNone | PyInt int | PyStr string

datatype error = AttributeError string | KeyError string

text \<open>
  Modelled from the spec: \<^verbatim>\<open>GinlongData\<close> of \<^verbatim>\<open>ginlong_base\<close> (imported by
  \<^verbatim>\<open>service.py\<close>, its class body is not part of the sources at hand) is the device
  snapshot, a mapping from attribute name to value. It is an association list read as a
  dictionary: \<^verbatim>\<open>keys()\<close> lists every name once, \<^verbatim>\<open>getattr\<close> looks a name up and raises
  \<^verbatim>\<open>AttributeError\<close> for a name that is absent.
\<close>

type_synonym GinlongData = "(string \<times> pyval) list"

definition keys :: "GinlongData \<Rightarrow> string list" where
  "keys d = remdups (map fst d)"

definition getattr :: "GinlongData \<Rightarrow> string \<Rightarrow> error + pyval" where
  "getattr d name = (case map_of d name of
                       None \<Rightarrow> Inl (AttributeError name)
                     | Some v \<Rightarrow> Inr v)"

section \<open>ServiceSubscriber\<close>

text \<open>
  A subscriber object holds \<^verbatim>\<open>_measured\<close> and whatever its concrete class keeps
  (\<open>inner\<close>). The abstract method \<^verbatim>\<open>do_update\<close> is a field: it takes the value, the
  timestamp and the object's own state and returns whether it applied the value, with the
  new state. It has no access to \<^verbatim>\<open>_measured\<close> and is assumed to return.
\<close>

record 's ServiceSubscriber =
  measured :: "datetime option"
  do_update :: "pyval \<Rightarrow> datetime option \<Rightarrow> 's \<Rightarrow> bool \<times> 's"
  inner :: 's

text \<open>
  \<^verbatim>\<open>data_updated\<close> returns the subscriber after the call and the list of the
  \<^verbatim>\<open>do_update\<close> invocations it made (their arguments), in order.
\<close>

definition data_updated ::
  "pyval \<Rightarrow> datetime option \<Rightarrow> 's ServiceSubscriber
     \<Rightarrow> 's ServiceSubscriber \<times> (pyval \<times> datetime option) list" where
  "data_updated v last_upd sub =
     (if measured sub \<noteq> last_upd then
        (case do_update sub v last_upd (inner sub) of
           (applied, st) \<Rightarrow>
             (if applied then sub\<lparr>inner := st, measured := last_upd\<rparr>
              else sub\<lparr>inner := st\<rparr>,
              [(v, last_upd)]))
      else (sub, []))"

text \<open>Two subscribers used in the examples: one refuses every value, one accepts every value.\<close>

definition refusing :: "unit ServiceSubscriber" where
  "refusing = \<lparr>measured = None, do_update = (\<lambda>v t st. (False, st)), inner = ()\<rparr>"

definition accepting :: "unit ServiceSubscriber" where
  "accepting = \<lparr>measured = None, do_update = (\<lambda>v t st. (True, st)), inner = ()\<rparr>"

section \<open>The service, its collaborators and what it does to them\<close>

text \<open>
  What the service does to the outside is recorded in a trace: the calls it makes on the
  remote API, the notifications it sends to subscribers (and the \<^verbatim>\<open>do_update\<close> calls they
  cause), the callbacks it registers with the host scheduler through
  \<^verbatim>\<open>async_track_point_in_utc_time\<close>, and the invocations of the discovery callback.
\<close>

datatype target = AsyncUpdate | AsyncDiscover

type_synonym cookie = "(string \<times> pyval) list"

type_synonym capabilities = "(string \<times> string list) list"

datatype event =
    ApiLogin
  | ApiLogout
  | ApiFetch string bool
  | Notify nat pyval "datetime option"
  | DoUpdate nat pyval "datetime option"
  | TrackPointInUtcTime target datetime
  | DiscoveryCallback nat capabilities cookie

datatype 'c PortalConfig = GinlongConfig 'c | SoliscloudConfig 'c | OtherConfig

text \<open>
  The environment of a run. The clocks are oracles: the \<open>n\<close>-th clock read of the run
  returns \<open>now n\<close> for \<^verbatim>\<open>datetime.now()\<close> (naive local time) and \<open>utcnow n\<close>
  for \<^verbatim>\<open>dt_util.utcnow()\<close>, so that any sequence of readings can be given. The names of
  \<^verbatim>\<open>ginlong_const\<close> are parameters. The remote API (\<^verbatim>\<open>BaseAPI\<close>) is a state of type
  \<open>'a\<close> with its operations as functions on it; \<^verbatim>\<open>fetch_inverter_data\<close> returns
  \<open>None\<close> when there is no data. The operations of the API are assumed to return.
\<close>

record ('a, 'c) env =
  now :: "nat \<Rightarrow> datetime"
  utcnow :: "nat \<Rightarrow> datetime"
  INVERTER_ENERGY_TODAY :: string
  INVERTER_SERIAL :: string
  INVERTER_STATE :: string
  GinlongAPI :: "'c \<Rightarrow> 'a"
  SoliscloudAPI :: "'c \<Rightarrow> 'a"
  api_is_online :: "'a \<Rightarrow> bool"
  api_login :: "'a \<Rightarrow> bool \<times> 'a"
  api_logout :: "'a \<Rightarrow> 'a"
  api_inverters :: "'a \<Rightarrow> string list option"
  api_fetch_inverter_data :: "string \<Rightarrow> 'a \<Rightarrow> GinlongData option \<times> 'a"

text \<open>
  The fields of \<^verbatim>\<open>InverterService\<close> (\<open>api = None\<close>: the attribute \<^verbatim>\<open>_api\<close> was never
  assigned), the subscriber objects (a store indexed by object identity, since one
  object may be registered under several attributes), the number of clock reads so far
  and the trace. The discovery callback is an opaque identifier.
\<close>

record ('a, 's) InverterService =
  last_updated :: "datetime option"
  logintime :: "datetime option"
  subscriptions :: "string \<rightharpoonup> (string \<rightharpoonup> nat)"
  discovery_callback :: "nat option"
  discovery_cookie :: "cookie option"
  api :: "'a option"
  subscribers :: "nat \<Rightarrow> 's ServiceSubscriber"
  ticks :: nat
  trace :: "event list"

definition init ::
  "('a, 'c) env \<Rightarrow> 'c PortalConfig \<Rightarrow> (nat \<Rightarrow> 's ServiceSubscriber)
     \<Rightarrow> ('a, 's) InverterService" where
  "init env portal_config objs =
     \<lparr>last_updated = None, logintime = None, subscriptions = Map.empty,
      discovery_callback = None, discovery_cookie = None,
      api = (case portal_config of
               GinlongConfig c \<Rightarrow> Some (GinlongAPI env c)
             | SoliscloudConfig c \<Rightarrow> Some (SoliscloudAPI env c)
             | OtherConfig \<Rightarrow> None),
      subscribers = objs, ticks = 0, trace = []\<rparr>"

definition datetime_now ::
  "('a, 'c) env \<Rightarrow> ('a, 's) InverterService \<Rightarrow> datetime \<times> ('a, 's) InverterService" where
  "datetime_now env s = (now env (ticks s), s\<lparr>ticks := Suc (ticks s)\<rparr>)"

definition dt_utcnow ::
  "('a, 'c) env \<Rightarrow> ('a, 's) InverterService \<Rightarrow> datetime \<times> ('a, 's) InverterService" where
  "dt_utcnow env s = (utcnow env (ticks s), s\<lparr>ticks := Suc (ticks s)\<rparr>)"

text \<open>\<^verbatim>\<open>_login\<close> and \<^verbatim>\<open>_logout\<close>.\<close>

definition login ::
  "('a, 'c) env \<Rightarrow> ('a, 's) InverterService \<Rightarrow> error + (bool \<times> ('a, 's) InverterService)" where
  "login env s =
     (case api s of
        None \<Rightarrow> Inl (AttributeError ''_api'')
      | Some a \<Rightarrow>
          if \<not> api_is_online env a then
            (case api_login env a of
               (ok, a') \<Rightarrow>
                 let s1 = s\<lparr>api := Some a', trace := trace s @ [ApiLogin]\<rparr>;
                     s2 = (if ok then (case datetime_now env s1 of
                                         (t, s') \<Rightarrow> s'\<lparr>logintime := Some t\<rparr>)
                           else s1)
                 in Inr (api_is_online env a', s2))
          else Inr (api_is_online env a, s))"

definition logout ::
  "('a, 'c) env \<Rightarrow> ('a, 's) InverterService \<Rightarrow> error + ('a, 's) InverterService" where
  "logout env s =
     (case api s of
        None \<Rightarrow> Inl (AttributeError ''_api'')
      | Some a \<Rightarrow> Inr (s\<lparr>api := Some (api_logout env a), logintime := None,
                         trace := trace s @ [ApiLogout]\<rparr>))"

definition status :: "('a, 'c) env \<Rightarrow> ('a, 's) InverterService \<Rightarrow> error + string" where
  "status env s =
     (case api s of
        None \<Rightarrow> Inl (AttributeError ''_api'')
      | Some a \<Rightarrow> Inr (if api_is_online env a then ONLINE else OFFLINE))"

definition subscribe ::
  "nat \<Rightarrow> string \<Rightarrow> string \<Rightarrow> ('a, 's) InverterService \<Rightarrow> ('a, 's) InverterService" where
  "subscribe subscriber serial attribute s =
     (let subs = (case subscriptions s serial of None \<Rightarrow> Map.empty | Some m \<Rightarrow> m)
      in s\<lparr>subscriptions := (subscriptions s)(serial \<mapsto> subs(attribute \<mapsto> subscriber))\<rparr>)"

subsection \<open>Dispatch of one snapshot\<close>

text \<open>
  The last line of the loop body of \<^verbatim>\<open>update_devices\<close>: the subscriber object
  \<open>sid\<close> is notified with the value and the service's \<^verbatim>\<open>last_updated\<close>.
\<close>

definition notify ::
  "nat \<Rightarrow> pyval \<Rightarrow> ('a, 's) InverterService \<Rightarrow> ('a, 's) InverterService" where
  "notify sid v s =
     (case data_updated v (last_updated s) (subscribers s sid) of
        (sub', calls) \<Rightarrow>
          s\<lparr>subscribers := (subscribers s)(sid := sub'),
            trace := trace s @ Notify sid v (last_updated s)
                       # map (\<lambda>(v', t'). DoUpdate sid v' t') calls\<rparr>)"

text \<open>
  The body of the loop of \<^verbatim>\<open>update_devices\<close> for one attribute. The
  \<^verbatim>\<open>try\<close>/\<^verbatim>\<open>except KeyError\<close> around the lookup of the state subscriber is the inner
  \<open>case\<close> that yields \<open>None\<close>; \<^verbatim>\<open>continue\<close> is the branch that returns the state
  without a notification.
\<close>

definition update_attribute ::
  "('a, 'c) env \<Rightarrow> GinlongData \<Rightarrow> string \<Rightarrow> string \<Rightarrow> ('a, 's) InverterService
     \<Rightarrow> error + ('a, 's) InverterService" where
  "update_attribute env data serial attribute s =
     (case subscriptions s serial of
        None \<Rightarrow> Inl (KeyError serial)
      | Some subs \<Rightarrow>
         (case subs attribute of
            None \<Rightarrow> Inr s
          | Some sid \<Rightarrow>
             (case getattr data attribute of
                Inl e \<Rightarrow> Inl e
              | Inr v \<Rightarrow>
                 if attribute = INVERTER_ENERGY_TODAY env then
                   (case datetime_now env s of
                      (t1, s1) \<Rightarrow>
                        let is_am = hour t1 < 12 in
                        (case getattr data (INVERTER_STATE env) of
                           Inl e \<Rightarrow> Inl e
                         | Inr st \<Rightarrow>
                            if st = PyInt 2 \<and> is_am then Inr (notify sid (PyInt 0) s1)
                            else if st = PyInt 1 \<and> is_am then
                              (case (case subs (INVERTER_STATE env) of
                                       None \<Rightarrow> None
                                     | Some k \<Rightarrow> measured (subscribers s1 k)) of
                                 None \<Rightarrow> Inr (notify sid v s1)
                               | Some last_updated_state \<Rightarrow>
                                  if hour last_updated_state = 0
                                       \<and> minute last_updated_state < 15
                                  then Inr (notify sid (PyInt 0) s1)
                                  else (case datetime_now env s1 of
                                          (t2, s2) \<Rightarrow>
                                            if last_updated_state + timedelta_minutes 5 > t2
                                            then Inr s2
                                            else Inr (notify sid v s2)))
                            else Inr (notify sid v s1)))
                 else Inr (notify sid v s))))"

fun update_attributes ::
  "('a, 'c) env \<Rightarrow> GinlongData \<Rightarrow> string \<Rightarrow> string list \<Rightarrow> ('a, 's) InverterService
     \<Rightarrow> error + ('a, 's) InverterService" where
  "update_attributes env data serial [] s = Inr s"
| "update_attributes env data serial (attribute # rest) s =
     (case update_attribute env data serial attribute s of
        Inl e \<Rightarrow> Inl e
      | Inr s' \<Rightarrow> update_attributes env data serial rest s')"

text \<open>
  \<^verbatim>\<open>update_devices\<close>. The registry is keyed by strings, so a serial that is not a
  string is in no subscription.
\<close>

definition update_devices ::
  "('a, 'c) env \<Rightarrow> GinlongData \<Rightarrow> ('a, 's) InverterService
     \<Rightarrow> error + ('a, 's) InverterService" where
  "update_devices env data s =
     (case getattr data (INVERTER_SERIAL env) of
        Inl e \<Rightarrow> Inl e
      | Inr (PyStr serial) \<Rightarrow>
          (case subscriptions s serial of
             None \<Rightarrow> Inr s
           | Some _ \<Rightarrow> update_attributes env data serial (keys data) s)
      | Inr _ \<Rightarrow> Inr s)"

subsection \<open>The update cycle\<close>

definition schedule_update ::
  "('a, 'c) env \<Rightarrow> int \<Rightarrow> ('a, 's) InverterService \<Rightarrow> ('a, 's) InverterService" where
  "schedule_update env minutes s =
     (case dt_utcnow env s of
        (t, s1) \<Rightarrow>
          s1\<lparr>trace := trace s1 @ [TrackPointInUtcTime AsyncUpdate (t + timedelta_minutes minutes)]\<rparr>)"

text \<open>One round of the loop over the inverters of \<^verbatim>\<open>async_update\<close>.\<close>

definition update_inverter ::
  "('a, 'c) env \<Rightarrow> string \<Rightarrow> ('a, 's) InverterService
     \<Rightarrow> error + (int \<times> ('a, 's) InverterService)" where
  "update_inverter env inverter_serial s =
     (case api s of
        None \<Rightarrow> Inl (AttributeError ''_api'')
      | Some a \<Rightarrow>
         (case api_fetch_inverter_data env inverter_serial a of
            (data, a') \<Rightarrow>
              let s1 = s\<lparr>api := Some a',
                         trace := trace s @ [ApiFetch inverter_serial (data \<noteq> None)]\<rparr>
              in (case data of
                    Some d \<Rightarrow>
                      (case datetime_now env s1 of
                         (t, s2) \<Rightarrow>
                           (case update_devices env d (s2\<lparr>last_updated := Some t\<rparr>) of
                              Inl e \<Rightarrow> Inl e
                            | Inr s3 \<Rightarrow> Inr (SCHEDULE_OK, s3)))
                  | None \<Rightarrow>
                      (case logout env s1 of
                         Inl e \<Rightarrow> Inl e
                       | Inr s2 \<Rightarrow> Inr (SCHEDULE_NOK, s2)))))"

fun update_inverters ::
  "('a, 'c) env \<Rightarrow> string list \<Rightarrow> int \<Rightarrow> ('a, 's) InverterService
     \<Rightarrow> error + (int \<times> ('a, 's) InverterService)" where
  "update_inverters env [] update s = Inr (update, s)"
| "update_inverters env (inverter_serial # rest) update s =
     (case update_inverter env inverter_serial s of
        Inl e \<Rightarrow> Inl e
      | Inr (update', s') \<Rightarrow> update_inverters env rest update' s')"

text \<open>
  The end of \<^verbatim>\<open>async_update\<close>, from \<^verbatim>\<open>self.schedule_update(update)\<close> on: the next
  cycle is scheduled, and the session is ended when the login is older than
  \<^verbatim>\<open>HRS_BETWEEN_LOGIN\<close>.
\<close>

definition finish_update ::
  "('a, 'c) env \<Rightarrow> int \<Rightarrow> ('a, 's) InverterService
     \<Rightarrow> error + (int \<times> ('a, 's) InverterService)" where
  "finish_update env update s =
     (let s1 = schedule_update env update s in
      case logintime s1 of
        None \<Rightarrow> Inr (update, s1)
      | Some lt \<Rightarrow>
         (case datetime_now env s1 of
            (t, s2) \<Rightarrow>
              if lt + HRS_BETWEEN_LOGIN < t then
                (case logout env s2 of
                   Inl e \<Rightarrow> Inl e
                 | Inr s3 \<Rightarrow> Inr (update, s3))
              else Inr (update, s2)))"

text \<open>
  \<^verbatim>\<open>async_update\<close>. When \<^verbatim>\<open>inverters\<close> is \<^verbatim>\<open>None\<close> the function returns at once, before
  \<^verbatim>\<open>schedule_update\<close>.
\<close>

definition async_update ::
  "('a, 'c) env \<Rightarrow> ('a, 's) InverterService
     \<Rightarrow> error + (int \<times> ('a, 's) InverterService)" where
  "async_update env s =
     (case login env s of
        Inl e \<Rightarrow> Inl e
      | Inr (ok, s1) \<Rightarrow>
          if ok then
            (case api s1 of
               None \<Rightarrow> Inl (AttributeError ''_api'')
             | Some a \<Rightarrow>
                (case api_inverters env a of
                   None \<Rightarrow> Inr (SCHEDULE_NOK, s1)
                 | Some invs \<Rightarrow>
                    (case update_inverters env invs SCHEDULE_NOK s1 of
                       Inl e \<Rightarrow> Inl e
                     | Inr (update, s2) \<Rightarrow> finish_update env update s2)))
          else finish_update env SCHEDULE_NOK s1)"

subsection \<open>Discovery\<close>

definition schedule_discovery ::
  "('a, 'c) env \<Rightarrow> nat option \<Rightarrow> cookie option \<Rightarrow> int \<Rightarrow> ('a, 's) InverterService
     \<Rightarrow> ('a, 's) InverterService" where
  "schedule_discovery env callback cookie seconds s =
     (let s1 = s\<lparr>discovery_callback := callback, discovery_cookie := cookie\<rparr> in
      case dt_utcnow env s1 of
        (t, s2) \<Rightarrow>
          s2\<lparr>trace := trace s2
                @ [TrackPointInUtcTime AsyncDiscover (t + timedelta_seconds seconds)]\<rparr>)"

text \<open>
  The loop of \<^verbatim>\<open>_do_discover\<close>; \<^verbatim>\<open>capabilities[inverter_serial] = data.keys()\<close> is the
  update of an insertion-ordered dictionary.
\<close>

fun discover_inverters ::
  "('a, 'c) env \<Rightarrow> string list \<Rightarrow> capabilities \<Rightarrow> ('a, 's) InverterService
     \<Rightarrow> error + (capabilities \<times> ('a, 's) InverterService)" where
  "discover_inverters env [] caps s = Inr (caps, s)"
| "discover_inverters env (inverter_serial # rest) caps s =
     (case api s of
        None \<Rightarrow> Inl (AttributeError ''_api'')
      | Some a \<Rightarrow>
         (case api_fetch_inverter_data env inverter_serial a of
            (data, a') \<Rightarrow>
              let s1 = s\<lparr>api := Some a',
                         trace := trace s @ [ApiFetch inverter_serial (data \<noteq> None)]\<rparr>
              in discover_inverters env rest
                   (case data of
                      None \<Rightarrow> caps
                    | Some d \<Rightarrow> AList.update inverter_serial (keys d) caps)
                   s1))"

definition do_discover ::
  "('a, 'c) env \<Rightarrow> ('a, 's) InverterService
     \<Rightarrow> error + (capabilities \<times> ('a, 's) InverterService)" where
  "do_discover env s =
     (case login env s of
        Inl e \<Rightarrow> Inl e
      | Inr (ok, s1) \<Rightarrow>
          if ok then
            (case datetime_now env s1 of
               (t, s2) \<Rightarrow>
                 let s3 = s2\<lparr>logintime := Some t\<rparr> in
                 (case api s3 of
                    None \<Rightarrow> Inl (AttributeError ''_api'')
                  | Some a \<Rightarrow>
                     (case api_inverters env a of
                        None \<Rightarrow> Inr ([], s3)
                      | Some invs \<Rightarrow> discover_inverters env invs [] s3)))
          else Inr ([], s1))"

text \<open>
  \<^verbatim>\<open>async_discover\<close>. A callback is truthy when it is set, a cookie (a dictionary) when
  it is set and not empty.
\<close>

definition async_discover ::
  "('a, 'c) env \<Rightarrow> ('a, 's) InverterService \<Rightarrow> error + ('a, 's) InverterService" where
  "async_discover env s =
     (case do_discover env s of
        Inl e \<Rightarrow> Inl e
      | Inr (caps, s1) \<Rightarrow>
          if caps \<noteq> [] then
            (case (discovery_callback s1, discovery_cookie s1) of
               (Some cb, Some ck) \<Rightarrow>
                 if ck \<noteq> [] then Inr (s1\<lparr>trace := trace s1 @ [DiscoveryCallback cb caps ck]\<rparr>)
                 else Inr s1
             | _ \<Rightarrow> Inr s1)
          else Inr (schedule_discovery env (discovery_callback s1) (discovery_cookie s1)
                      RETRY_DELAY_SECONDS s1))"

section \<open>Reading a trace\<close>

text \<open>
  The callbacks registered with the host scheduler, the results of the fetches and the
  invocations of the discovery callback that a list of events holds, in order; the timestamp
  that a notification (or the \<^verbatim>\<open>do_update\<close> it caused) carries; and the events that a
  run from \<open>s\<close> to \<open>s'\<close> added.
\<close>

definition scheduled :: "event list \<Rightarrow> (target \<times> datetime) list" where
  "scheduled evs = concat (map (\<lambda>e. case e of TrackPointInUtcTime tg t \<Rightarrow> [(tg, t)] | _ \<Rightarrow> []) evs)"

definition fetch_results :: "event list \<Rightarrow> bool list" where
  "fetch_results evs = concat (map (\<lambda>e. case e of ApiFetch sn b \<Rightarrow> [b] | _ \<Rightarrow> []) evs)"

definition callbacks :: "event list \<Rightarrow> (nat \<times> capabilities \<times> cookie) list" where
  "callbacks evs = concat (map (\<lambda>e. case e of DiscoveryCallback cb caps ck \<Rightarrow> [(cb, caps, ck)] | _ \<Rightarrow> []) evs)"

definition event_stamp :: "event \<Rightarrow> datetime option option" where
  "event_stamp e = (case e of Notify sid v t \<Rightarrow> Some t | DoUpdate sid v t \<Rightarrow> Some t | _ \<Rightarrow> None)"

definition new_events ::
  "('a, 's) InverterService \<Rightarrow> ('a, 's) InverterService \<Rightarrow> event list" where
  "new_events s s' = drop (length (trace s)) (trace s')"

text \<open>
  Summaries used in the proofs. \<open>dispatched s s'\<close>: from \<open>s\<close> to \<open>s'\<close> only
  notifications were sent, all of them with the \<^verbatim>\<open>last_updated\<close> of \<open>s\<close>, and only the
  subscriber objects and the clock moved. \<open>round_of\<close> describes one round of the loop
  over the inverters, \<open>cycle_of\<close> the whole loop, and \<open>api_calls_only\<close> a list of
  events that are all calls on the remote API made by discovery.
\<close>

definition dispatched :: "('a, 's) InverterService \<Rightarrow> ('a, 's) InverterService \<Rightarrow> bool" where
  "dispatched s s' \<longleftrightarrow>
     (\<exists>evs. trace s' = trace s @ evs \<and> (\<forall>e\<in>set evs. event_stamp e = Some (last_updated s)))
     \<and> last_updated s' = last_updated s \<and> logintime s' = logintime s \<and> api s' = api s
     \<and> subscriptions s' = subscriptions s
     \<and> discovery_callback s' = discovery_callback s
     \<and> discovery_cookie s' = discovery_cookie s
     \<and> ticks s \<le> ticks s'"

definition round_of ::
  "('a, 'c) env \<Rightarrow> string \<Rightarrow> ('a, 's) InverterService \<Rightarrow> int \<Rightarrow> ('a, 's) InverterService \<Rightarrow> bool" where
  "round_of env sn s u s' \<longleftrightarrow>
     (\<exists>b evs. trace s' = trace s @ ApiFetch sn b # evs
        \<and> u = (if b then SCHEDULE_OK else SCHEDULE_NOK)
        \<and> (if b then (\<forall>e\<in>set evs. event_stamp e = Some (Some (now env (ticks s))))
                     \<and> logintime s' = logintime s
           else evs = [ApiLogout] \<and> logintime s' = None))
     \<and> api s' \<noteq> None \<and> ticks s \<le> ticks s'
     \<and> discovery_callback s' = discovery_callback s
     \<and> discovery_cookie s' = discovery_cookie s"

definition cycle_of ::
  "('a, 's) InverterService \<Rightarrow> int \<Rightarrow> int \<Rightarrow> ('a, 's) InverterService \<Rightarrow> bool" where
  "cycle_of s u0 u s' \<longleftrightarrow>
     (\<exists>evs. trace s' = trace s @ evs \<and> scheduled evs = []
        \<and> u = (if fetch_results evs = [] then u0
               else if last (fetch_results evs) then SCHEDULE_OK else SCHEDULE_NOK)
        \<and> (False \<in> set (fetch_results evs) \<longrightarrow> ApiLogout \<in> set evs \<and> logintime s' = None))
     \<and> (logintime s' = None \<or> logintime s' = logintime s)
     \<and> api s' \<noteq> None \<and> ticks s \<le> ticks s'
     \<and> discovery_callback s' = discovery_callback s
     \<and> discovery_cookie s' = discovery_cookie s"

definition api_calls_only :: "event list \<Rightarrow> bool" where
  "api_calls_only evs \<longleftrightarrow> (\<forall>e\<in>set evs. e = ApiLogin \<or> (\<exists>sn b. e = ApiFetch sn b))"

section \<open>Example environments and services\<close>

text \<open>
  A clock that starts at 09:00:00 local time and advances one second per reading, one
  that stands still at 09:00:00 and one that starts at 12:00:00; UTC is two hours behind.
  A snapshot carries the serial, the state code and the energy-today reading; the
  stateless one has no state code. The example API is online exactly when its
  state is \<open>True\<close>, and its fetches do not depend on the session.
\<close>

definition nine_am :: "nat \<Rightarrow> datetime" where
  "nine_am n = 32400000000 + int n * 1000000"

definition still :: "nat \<Rightarrow> datetime" where
  "still n = 32400000000"

definition noon :: "nat \<Rightarrow> datetime" where
  "noon n = 43200000000 + int n * 1000000"

definition stateless_snapshot :: GinlongData where
  "stateless_snapshot = [(''serial'', PyStr ''A''), (''energyToday'', PyInt 7)]"

definition snapshot :: "string \<Rightarrow> int \<Rightarrow> int \<Rightarrow> GinlongData" where
  "snapshot serial st e =
     [(''serial'', PyStr serial), (''state'', PyInt st), (''energyToday'', PyInt e)]"

definition ok_fetch :: "string \<Rightarrow> GinlongData option" where
  "ok_fetch sn = Some (snapshot sn 3 7)"

definition no_fetch :: "string \<Rightarrow> GinlongData option" where
  "no_fetch sn = None"

definition failing_a :: "string \<Rightarrow> GinlongData option" where
  "failing_a sn = (if sn = ''A'' then None else Some (snapshot sn 3 7))"

definition failing_b :: "string \<Rightarrow> GinlongData option" where
  "failing_b sn = (if sn = ''B'' then None else Some (snapshot sn 3 7))"

definition test_env ::
  "(nat \<Rightarrow> datetime) \<Rightarrow> bool \<Rightarrow> string list option \<Rightarrow> (string \<Rightarrow> GinlongData option)
     \<Rightarrow> (bool, unit) env" where
  "test_env clock login_ok invs fetch =
     \<lparr>now = clock,
      utcnow = (\<lambda>n. clock n - 7200000000),
      INVERTER_ENERGY_TODAY = ''energyToday'',
      INVERTER_SERIAL = ''serial'',
      INVERTER_STATE = ''state'',
      GinlongAPI = (\<lambda>c. False),
      SoliscloudAPI = (\<lambda>c. False),
      api_is_online = (\<lambda>a. a),
      api_login = (\<lambda>a. (login_ok, login_ok)),
      api_logout = (\<lambda>a. False),
      api_inverters = (\<lambda>a. invs),
      api_fetch_inverter_data = (\<lambda>sn a. (fetch sn, a))\<rparr>"

definition quiet_env :: "(bool, unit) env" where
  "quiet_env = test_env nine_am True None no_fetch"

definition noon_env :: "(bool, unit) env" where
  "noon_env = test_env noon True None no_fetch"

definition two_ok_env :: "(bool, unit) env" where
  "two_ok_env = test_env nine_am True (Some [''A'', ''B'']) ok_fetch"

definition still_env :: "(bool, unit) env" where
  "still_env = test_env still True (Some [''A'']) ok_fetch"

definition login_fails_env :: "(bool, unit) env" where
  "login_fails_env = test_env still False (Some [''A'']) no_fetch"

definition fail_a_env :: "(bool, unit) env" where
  "fail_a_env = test_env nine_am True (Some [''A'', ''B'']) failing_a"

definition fail_b_env :: "(bool, unit) env" where
  "fail_b_env = test_env nine_am True (Some [''A'', ''B'']) failing_b"

definition all_accepting :: "nat \<Rightarrow> unit ServiceSubscriber" where
  "all_accepting k = accepting"

definition measured_at :: "datetime option \<Rightarrow> nat \<Rightarrow> unit ServiceSubscriber" where
  "measured_at t k = (if k = 1 then accepting\<lparr>measured := t\<rparr> else accepting)"

definition two_devices :: "string \<rightharpoonup> (string \<rightharpoonup> nat)" where
  "two_devices = [''A'' \<mapsto> [''energyToday'' \<mapsto> 0], ''B'' \<mapsto> [''energyToday'' \<mapsto> 1]]"

definition with_state_sensor :: "string \<rightharpoonup> (string \<rightharpoonup> nat)" where
  "with_state_sensor = [''A'' \<mapsto> [''energyToday'' \<mapsto> 0, ''state'' \<mapsto> 1]]"

definition test_service ::
  "bool \<Rightarrow> (string \<rightharpoonup> (string \<rightharpoonup> nat)) \<Rightarrow> (nat \<Rightarrow> unit ServiceSubscriber)
     \<Rightarrow> (bool, unit) InverterService" where
  "test_service online subs objs =
     \<lparr>last_updated = None, logintime = None, subscriptions = subs,
      discovery_callback = None, discovery_cookie = None, api = Some online,
      subscribers = objs, ticks = 0, trace = []\<rparr>"

text \<open>
  A service with two devices and no poll yet; a service just after the snapshot of device
  \<open>A\<close> was fetched at 09:00:00, whose state sensor last applied a value at the given
  time; and a logged-in service with a discovery callback and cookie registered.
\<close>

definition idle_service :: "bool \<Rightarrow> (bool, unit) InverterService" where
  "idle_service online = test_service online two_devices all_accepting"

definition polled_service :: "datetime option \<Rightarrow> (bool, unit) InverterService" where
  "polled_service state_measured =
     (test_service True with_state_sensor (measured_at state_measured))
       \<lparr>last_updated := Some (nine_am 0), ticks := 1\<rparr>"

definition registered_service :: "cookie \<Rightarrow> (bool, unit) InverterService" where
  "registered_service ck =
     (idle_service True)\<lparr>logintime := Some 0, discovery_callback := Some 7,
                          discovery_cookie := Some ck\<rparr>"

section \<open>De-duplication by timestamp\<close>

lemma data_updated_same:
  "measured sub = t \<Longrightarrow> data_updated v t sub = (sub, [])"
  by (simp add: data_updated_def)

lemma data_updated_calls_le:
  "length (snd (data_updated v t sub)) \<le> 1"
  by (simp add: data_updated_def split: prod.splits)

text \<open>
  C5, as stated: for equal timestamps, two consecutive notifications invoke
  \<^verbatim>\<open>do_update\<close> at most once. This fails for a subscriber whose \<^verbatim>\<open>do_update\<close> refuses
  the value: the stored timestamp is not advanced and the second notification calls
  \<^verbatim>\<open>do_update\<close> again.
\<close>

theorem C5_two_calls_counterexample:
  "\<not> (length (snd (data_updated (PyInt 1) (Some 5) refusing)
         @ snd (data_updated (PyInt 2) (Some 5)
                  (fst (data_updated (PyInt 1) (Some 5) refusing)))) \<le> 1)"
  by (simp add: data_updated_def refusing_def)

text \<open>
  C5, amended: a notification whose timestamp equals the stored one (both unset
  included) calls nothing and changes nothing; and two consecutive notifications with
  the same timestamp invoke \<^verbatim>\<open>do_update\<close> at most once whenever the first one made no
  call or its \<^verbatim>\<open>do_update\<close> applied the value.
\<close>

theorem C5_dedup:
  "(measured sub = t \<longrightarrow> data_updated v t sub = (sub, []))
   \<and> (measured sub = t \<or> fst (do_update sub v t (inner sub))
        \<longrightarrow> length (snd (data_updated v t sub)
                    @ snd (data_updated v2 t (fst (data_updated v t sub)))) \<le> 1)"
  by (auto simp add: data_updated_def split: prod.splits)

theorem C5_dedup_witness:
  "measured accepting = None
   \<and> data_updated (PyInt 1) None accepting = (accepting, [])
   \<and> fst (do_update accepting (PyInt 1) (Some 5) (inner accepting))
   \<and> length (snd (data_updated (PyInt 1) (Some 5) accepting)
         @ snd (data_updated (PyInt 2) (Some 5)
                  (fst (data_updated (PyInt 1) (Some 5) accepting)))) \<le> 1"
  using C5_dedup [of accepting None "PyInt 1" "PyInt 2"]
        C5_dedup [of accepting "Some 5" "PyInt 1" "PyInt 2"]
  by (simp add: accepting_def)

text \<open>
  C6: when \<^verbatim>\<open>do_update\<close> is invoked and returns false, the stored timestamp is left as
  it was and a following notification with the same timestamp invokes \<^verbatim>\<open>do_update\<close>
  again; when it returns true, the stored timestamp becomes the supplied one.
\<close>

theorem C6_refused_is_retried:
  assumes "measured sub \<noteq> t"
  shows "(\<not> fst (do_update sub v t (inner sub))
            \<longrightarrow> measured (fst (data_updated v t sub)) = measured sub
                \<and> snd (data_updated v2 t (fst (data_updated v t sub))) = [(v2, t)])
         \<and> (fst (do_update sub v t (inner sub))
            \<longrightarrow> measured (fst (data_updated v t sub)) = t)"
  using assms by (auto simp add: data_updated_def split: prod.splits)

theorem C6_refused_is_retried_witness:
  "measured refusing \<noteq> Some 5
   \<and> \<not> fst (do_update refusing (PyInt 1) (Some 5) (inner refusing))
   \<and> measured (fst (data_updated (PyInt 1) (Some 5) refusing)) = measured refusing
   \<and> snd (data_updated (PyInt 2) (Some 5) (fst (data_updated (PyInt 1) (Some 5) refusing)))
       = [(PyInt 2, Some 5)]
   \<and> measured accepting \<noteq> Some 5
   \<and> fst (do_update accepting (PyInt 1) (Some 5) (inner accepting))
   \<and> measured (fst (data_updated (PyInt 1) (Some 5) accepting)) = Some 5"
  using C6_refused_is_retried [of refusing "Some 5" "PyInt 1" "PyInt 2"]
        C6_refused_is_retried [of accepting "Some 5" "PyInt 1" "PyInt 2"]
  by (simp add: refusing_def accepting_def)

section \<open>The correction of energy-today\<close>

text \<open>
  C1: the energy-today attribute of a device in state 1 (starting up), dispatched before
  local noon, where the attribute has a subscriber. With a timestamp recorded on the
  subscriber of the device's state attribute: if its hour is 0 and its minute is below
  15, the subscriber is notified with 0; otherwise, if the timestamp plus five minutes is
  later than the clock read at that point, nothing is notified (the trace and the
  subscriber objects are unchanged); otherwise the raw value is notified. With no such
  timestamp (no state subscriber, or none applied yet) the raw value is notified.
\<close>

theorem C1_starting_up:
  assumes "subscriptions s serial = Some subs"
      and "subs (INVERTER_ENERGY_TODAY env) = Some sid"
      and "getattr data (INVERTER_ENERGY_TODAY env) = Inr v"
      and "getattr data (INVERTER_STATE env) = Inr (PyInt 1)"
      and "hour (now env (ticks s)) < 12"
  shows "\<exists>s'. update_attribute env data serial (INVERTER_ENERGY_TODAY env) s = Inr s'
          \<and> (case (case subs (INVERTER_STATE env) of
                      None \<Rightarrow> None
                    | Some k \<Rightarrow> measured (subscribers s k)) of
                None \<Rightarrow> s' = notify sid v (s\<lparr>ticks := Suc (ticks s)\<rparr>)
              | Some last_updated_state \<Rightarrow>
                  if hour last_updated_state = 0 \<and> minute last_updated_state < 15
                  then s' = notify sid (PyInt 0) (s\<lparr>ticks := Suc (ticks s)\<rparr>)
                  else if last_updated_state + timedelta_minutes 5 > now env (Suc (ticks s))
                  then trace s' = trace s \<and> subscribers s' = subscribers s
                  else s' = notify sid v (s\<lparr>ticks := Suc (Suc (ticks s))\<rparr>))"
  using assms
  by (auto simp add: update_attribute_def datetime_now_def split: option.splits)

theorem C1_starting_up_witness:
  "subscriptions (polled_service (Some 32280000000)) ''A''
      = Some [''energyToday'' \<mapsto> 0, ''state'' \<mapsto> 1]
   \<and> getattr (snapshot ''A'' 1 7) (INVERTER_STATE quiet_env) = Inr (PyInt 1)
   \<and> hour (now quiet_env (ticks (polled_service (Some 32280000000)))) < 12
   \<and> map_sum id trace
        (update_attribute quiet_env (snapshot ''A'' 1 7) ''A'' ''energyToday''
           (polled_service (Some 32280000000)))
       = Inr []
   \<and> map_sum id trace
        (update_attribute quiet_env (snapshot ''A'' 1 7) ''A'' ''energyToday''
           (polled_service (Some 300000000)))
       = Inr [Notify 0 (PyInt 0) (Some 32400000000), DoUpdate 0 (PyInt 0) (Some 32400000000)]
   \<and> map_sum id trace
        (update_attribute quiet_env (snapshot ''A'' 1 7) ''A'' ''energyToday''
           (polled_service (Some 28800000000)))
       = Inr [Notify 0 (PyInt 7) (Some 32400000000), DoUpdate 0 (PyInt 7) (Some 32400000000)]
   \<and> map_sum id trace
        (update_attribute quiet_env (snapshot ''A'' 1 7) ''A'' ''energyToday''
           (polled_service None))
       = Inr [Notify 0 (PyInt 7) (Some 32400000000), DoUpdate 0 (PyInt 7) (Some 32400000000)]"
  using C1_starting_up [of "polled_service (Some 32280000000)"
          "''A''" "[''energyToday'' \<mapsto> 0, ''state'' \<mapsto> 1]"
          quiet_env 0 "snapshot ''A'' 1 7" "PyInt 7"]
        C1_starting_up [of "polled_service (Some 300000000)"
          "''A''" "[''energyToday'' \<mapsto> 0, ''state'' \<mapsto> 1]"
          quiet_env 0 "snapshot ''A'' 1 7" "PyInt 7"]
        C1_starting_up [of "polled_service (Some 28800000000)"
          "''A''" "[''energyToday'' \<mapsto> 0, ''state'' \<mapsto> 1]"
          quiet_env 0 "snapshot ''A'' 1 7" "PyInt 7"]
        C1_starting_up [of "polled_service None"
          "''A''" "[''energyToday'' \<mapsto> 0, ''state'' \<mapsto> 1]"
          quiet_env 0 "snapshot ''A'' 1 7" "PyInt 7"]
  by (auto simp add: quiet_env_def test_env_def nine_am_def no_fetch_def snapshot_def
        polled_service_def test_service_def with_state_sensor_def measured_at_def
        accepting_def getattr_def hour_def minute_def timedelta_minutes_def notify_def
        data_updated_def)

text \<open>
  C2, as stated: at or after local noon the raw value of the energy-today attribute is
  passed through. The state attribute is read before the time of day is tested, so for a
  snapshot without a state attribute the read raises \<^verbatim>\<open>AttributeError\<close> at 12:00:01 as at
  any other time, and nothing is delivered.
\<close>

theorem C2_missing_state_counterexample:
  "subscriptions (polled_service None) ''A'' = Some [''energyToday'' \<mapsto> 0, ''state'' \<mapsto> 1]
   \<and> getattr stateless_snapshot (INVERTER_ENERGY_TODAY noon_env) = Inr (PyInt 7)
   \<and> hour (now noon_env (ticks (polled_service None))) = 12
   \<and> update_attribute noon_env stateless_snapshot ''A'' ''energyToday'' (polled_service None)
       = Inl (AttributeError ''state'')"
  by (simp add: noon_env_def test_env_def noon_def nine_am_def no_fetch_def
        stateless_snapshot_def polled_service_def test_service_def with_state_sensor_def
        measured_at_def accepting_def getattr_def hour_def update_attribute_def
        datetime_now_def)

text \<open>
  C2, amended: for the energy-today attribute with a subscriber, in a snapshot that carries
  a state code: before local noon in state 2 (standby/off) the subscriber is notified with
  0; in a state other than 1 and 2 (running), or at or after local noon in any state, it is
  notified with the raw value, whatever that value is.
\<close>

theorem C2_standby_or_running:
  assumes "subscriptions s serial = Some subs"
      and "subs (INVERTER_ENERGY_TODAY env) = Some sid"
      and "getattr data (INVERTER_ENERGY_TODAY env) = Inr v"
      and "getattr data (INVERTER_STATE env) = Inr st"
  shows "(st = PyInt 2 \<and> hour (now env (ticks s)) < 12
            \<longrightarrow> update_attribute env data serial (INVERTER_ENERGY_TODAY env) s
                  = Inr (notify sid (PyInt 0) (s\<lparr>ticks := Suc (ticks s)\<rparr>)))
         \<and> ((st \<noteq> PyInt 1 \<and> st \<noteq> PyInt 2) \<or> \<not> hour (now env (ticks s)) < 12
            \<longrightarrow> update_attribute env data serial (INVERTER_ENERGY_TODAY env) s
                  = Inr (notify sid v (s\<lparr>ticks := Suc (ticks s)\<rparr>)))"
  using assms by (auto simp add: update_attribute_def datetime_now_def)

theorem C2_standby_or_running_witness:
  "subscriptions (polled_service None) ''A'' = Some [''energyToday'' \<mapsto> 0, ''state'' \<mapsto> 1]
   \<and> getattr (snapshot ''A'' 2 7) (INVERTER_STATE quiet_env) = Inr (PyInt 2)
   \<and> hour (now quiet_env (ticks (polled_service None))) < 12
   \<and> map_sum id trace
        (update_attribute quiet_env (snapshot ''A'' 2 7) ''A'' ''energyToday'' (polled_service None))
       = Inr [Notify 0 (PyInt 0) (Some 32400000000), DoUpdate 0 (PyInt 0) (Some 32400000000)]
   \<and> map_sum id trace
        (update_attribute quiet_env (snapshot ''A'' 3 7) ''A'' ''energyToday'' (polled_service None))
       = Inr [Notify 0 (PyInt 7) (Some 32400000000), DoUpdate 0 (PyInt 7) (Some 32400000000)]
   \<and> \<not> hour (now noon_env (ticks (polled_service None))) < 12
   \<and> map_sum id trace
        (update_attribute noon_env (snapshot ''A'' 2 7) ''A'' ''energyToday'' (polled_service None))
       = Inr [Notify 0 (PyInt 7) (Some 32400000000), DoUpdate 0 (PyInt 7) (Some 32400000000)]"
  using C2_standby_or_running [of "polled_service None"
          "''A''" "[''energyToday'' \<mapsto> 0, ''state'' \<mapsto> 1]"
          quiet_env 0 "snapshot ''A'' 2 7" "PyInt 7" "PyInt 2"]
        C2_standby_or_running [of "polled_service None"
          "''A''" "[''energyToday'' \<mapsto> 0, ''state'' \<mapsto> 1]"
          quiet_env 0 "snapshot ''A'' 3 7" "PyInt 7" "PyInt 3"]
        C2_standby_or_running [of "polled_service None"
          "''A''" "[''energyToday'' \<mapsto> 0, ''state'' \<mapsto> 1]"
          noon_env 0 "snapshot ''A'' 2 7" "PyInt 7" "PyInt 2"]
  by (simp add: quiet_env_def noon_env_def test_env_def nine_am_def noon_def no_fetch_def
        snapshot_def polled_service_def test_service_def with_state_sensor_def
        measured_at_def accepting_def getattr_def hour_def notify_def data_updated_def)

section \<open>Frames of the operations\<close>

lemma scheduled_append: "scheduled (xs @ ys) = scheduled xs @ scheduled ys"
  by (simp add: scheduled_def)

lemma fetch_results_append: "fetch_results (xs @ ys) = fetch_results xs @ fetch_results ys"
  by (simp add: fetch_results_def)

lemma callbacks_append: "callbacks (xs @ ys) = callbacks xs @ callbacks ys"
  by (simp add: callbacks_def)

lemma scheduled_simps:
  "scheduled [] = []"
  "scheduled (ApiLogin # evs) = scheduled evs"
  "scheduled (ApiLogout # evs) = scheduled evs"
  "scheduled (ApiFetch sn b # evs) = scheduled evs"
  "scheduled (TrackPointInUtcTime tg t # evs) = (tg, t) # scheduled evs"
  by (simp_all add: scheduled_def)

lemma fetch_results_simps:
  "fetch_results [] = []"
  "fetch_results (ApiLogin # evs) = fetch_results evs"
  "fetch_results (ApiLogout # evs) = fetch_results evs"
  "fetch_results (TrackPointInUtcTime tg t # evs) = fetch_results evs"
  "fetch_results (ApiFetch sn b # evs) = b # fetch_results evs"
  by (simp_all add: fetch_results_def)

lemma stamped_scheduled: "\<forall>e\<in>set evs. event_stamp e = Some t \<Longrightarrow> scheduled evs = []"
  by (induction evs) (auto simp add: scheduled_def event_stamp_def split: event.splits)

lemma stamped_fetch_results: "\<forall>e\<in>set evs. event_stamp e = Some t \<Longrightarrow> fetch_results evs = []"
  by (induction evs) (auto simp add: fetch_results_def event_stamp_def split: event.splits)

lemma api_calls_only_scheduled: "api_calls_only evs \<Longrightarrow> scheduled evs = []"
  by (induction evs) (auto simp add: api_calls_only_def scheduled_def)

lemma api_calls_only_callbacks: "api_calls_only evs \<Longrightarrow> callbacks evs = []"
  by (induction evs) (auto simp add: api_calls_only_def callbacks_def)

lemma dispatched_refl: "dispatched s s"
  by (simp add: dispatched_def)

lemma dispatched_trans: "dispatched s s1 \<Longrightarrow> dispatched s1 s2 \<Longrightarrow> dispatched s s2"
  unfolding dispatched_def by (elim conjE exE) (simp, blast)

lemma dispatched_tick: "dispatched s (s\<lparr>ticks := Suc (ticks s)\<rparr>)"
  by (simp add: dispatched_def)

lemma dispatched_notify: "dispatched s (notify sid v s)"
  by (auto simp add: dispatched_def notify_def data_updated_def event_stamp_def
       split: prod.splits)

lemma update_attribute_dispatched:
  assumes "update_attribute env data serial attribute s = Inr s'"
  shows "dispatched s s'"
proof -
  let ?s1 = "s\<lparr>ticks := Suc (ticks s)\<rparr>"
  let ?s2 = "?s1\<lparr>ticks := Suc (ticks ?s1)\<rparr>"
  have a: "dispatched s ?s1" by (rule dispatched_tick)
  have b: "dispatched s ?s2" by (rule dispatched_trans [OF a dispatched_tick])
  have "s' = s \<or> s' = ?s2 \<or> (\<exists>sid v. s' = notify sid v s \<or> s' = notify sid v ?s1 \<or> s' = notify sid v ?s2)"
    using assms
    by (auto simp add: update_attribute_def datetime_now_def Let_def
          split: option.splits sum.splits if_splits)
  then show ?thesis
    using a b dispatched_refl [of s] dispatched_notify dispatched_trans by blast
qed

lemma update_attributes_dispatched:
  "update_attributes env data serial attrs s = Inr s' \<Longrightarrow> dispatched s s'"
proof (induction attrs arbitrary: s)
  case Nil
  then show ?case by (simp add: dispatched_refl)
next
  case (Cons a attrs)
  then show ?case
    by (auto split: sum.splits dest!: update_attribute_dispatched intro: dispatched_trans)
qed

lemma update_devices_dispatched:
  "update_devices env data s = Inr s' \<Longrightarrow> dispatched s s'"
  by (auto simp add: update_devices_def dispatched_refl
        split: sum.splits pyval.splits option.splits dest: update_attributes_dispatched)

lemma update_inverter_round:
  assumes "update_inverter env sn s = Inr (u, s')"
  shows "round_of env sn s u s'"
proof -
  from assms obtain a where a: "api s = Some a"
    by (auto simp add: update_inverter_def split: option.splits)
  obtain data a' where f: "api_fetch_inverter_data env sn a = (data, a')"
    by (cases "api_fetch_inverter_data env sn a")
  let ?s1 = "s\<lparr>api := Some a', trace := trace s @ [ApiFetch sn (data \<noteq> None)]\<rparr>"
  show ?thesis
  proof (cases data)
    case None
    with assms a f have "u = SCHEDULE_NOK"
      and "s' = ?s1\<lparr>api := Some (api_logout env a'), logintime := None,
                       trace := trace ?s1 @ [ApiLogout]\<rparr>"
      by (simp_all add: update_inverter_def logout_def)
    with None show ?thesis
      unfolding round_of_def
      by (intro conjI exI [of _ False] exI [of _ "[ApiLogout]"]) simp_all
  next
    case (Some d)
    let ?s2 = "?s1\<lparr>ticks := Suc (ticks ?s1), last_updated := Some (now env (ticks s))\<rparr>"
    from assms a f Some have u: "u = SCHEDULE_OK" and d: "update_devices env d ?s2 = Inr s'"
      by (simp_all add: update_inverter_def datetime_now_def split: sum.splits)
    from update_devices_dispatched [OF d]
    obtain evs where "trace s' = trace ?s2 @ evs"
      and "\<forall>e\<in>set evs. event_stamp e = Some (last_updated ?s2)"
      and "logintime s' = logintime ?s2" and "api s' = api ?s2"
      and "discovery_callback s' = discovery_callback ?s2"
      and "discovery_cookie s' = discovery_cookie ?s2"
      and "ticks ?s2 \<le> ticks s'"
      unfolding dispatched_def by blast
    with u Some show ?thesis
      unfolding round_of_def
      by (intro conjI exI [of _ True] exI [of _ evs]) simp_all
  qed
qed

lemma round_of_no_schedule:
  assumes "round_of env sn s u s'"
  shows "\<exists>b evs. trace s' = trace s @ ApiFetch sn b # evs
    \<and> scheduled evs = [] \<and> fetch_results evs = []
    \<and> u = (if b then SCHEDULE_OK else SCHEDULE_NOK)
    \<and> (b \<longrightarrow> logintime s' = logintime s)
    \<and> (\<not> b \<longrightarrow> ApiLogout \<in> set evs \<and> logintime s' = None)"
proof -
  from assms obtain b evs where t: "trace s' = trace s @ ApiFetch sn b # evs"
    and u: "u = (if b then SCHEDULE_OK else SCHEDULE_NOK)"
    and c: "if b then (\<forall>e\<in>set evs. event_stamp e = Some (Some (now env (ticks s))))
                     \<and> logintime s' = logintime s
           else evs = [ApiLogout] \<and> logintime s' = None"
    unfolding round_of_def by blast
  have "scheduled evs = []" "fetch_results evs = []"
    using c stamped_scheduled [of evs] stamped_fetch_results [of evs]
    by (auto simp add: scheduled_def fetch_results_def split: if_splits)
  with t u c show ?thesis
    by (intro exI [of _ b] exI [of _ evs]) (auto split: if_splits)
qed

lemma update_inverters_cycle:
  "api s \<noteq> None \<Longrightarrow> update_inverters env invs u0 s = Inr (u, s') \<Longrightarrow> cycle_of s u0 u s'"
proof (induction invs arbitrary: u0 s)
  case Nil
  then show ?case by (simp add: cycle_of_def scheduled_def fetch_results_def)
next
  case (Cons sn invs)
  from Cons.prems obtain u1 s1 where r: "update_inverter env sn s = Inr (u1, s1)"
    and l: "update_inverters env invs u1 s1 = Inr (u, s')"
    by (auto split: sum.splits)
  have ro: "round_of env sn s u1 s1" by (rule update_inverter_round [OF r])
  then have a1: "api s1 \<noteq> None" and tk: "ticks s \<le> ticks s1"
    and cb: "discovery_callback s1 = discovery_callback s"
    and ck: "discovery_cookie s1 = discovery_cookie s"
    by (simp_all add: round_of_def)
  from Cons.IH [OF a1 l] obtain evs2 where t2: "trace s' = trace s1 @ evs2"
    and s2: "scheduled evs2 = []"
    and u2: "u = (if fetch_results evs2 = [] then u1
               else if last (fetch_results evs2) then SCHEDULE_OK else SCHEDULE_NOK)"
    and f2: "False \<in> set (fetch_results evs2) \<longrightarrow> ApiLogout \<in> set evs2 \<and> logintime s' = None"
    and l2: "logintime s' = None \<or> logintime s' = logintime s1"
    and rest: "api s' \<noteq> None" "ticks s1 \<le> ticks s'"
      "discovery_callback s' = discovery_callback s1"
      "discovery_cookie s' = discovery_cookie s1"
    unfolding cycle_of_def by blast
  from ro obtain b evs1 where t1: "trace s1 = trace s @ ApiFetch sn b # evs1"
    and s1: "scheduled evs1 = []" and f1: "fetch_results evs1 = []"
    and u1: "u1 = (if b then SCHEDULE_OK else SCHEDULE_NOK)"
    and bt: "b \<longrightarrow> logintime s1 = logintime s"
    and bf: "\<not> b \<longrightarrow> ApiLogout \<in> set evs1 \<and> logintime s1 = None"
    using round_of_no_schedule [OF ro] by blast
  let ?evs = "ApiFetch sn b # evs1 @ evs2"
  have fr: "fetch_results ?evs = b # fetch_results evs2"
    using f1 fetch_results_append [of "[ApiFetch sn b]" "evs1 @ evs2"]
    by (simp add: fetch_results_append) (simp add: fetch_results_def)
  have sc: "scheduled ?evs = []"
    using s1 s2 scheduled_append [of "[ApiFetch sn b]" "evs1 @ evs2"]
    by (simp add: scheduled_append) (simp add: scheduled_def)
  have tr: "trace s' = trace s @ ?evs" using t1 t2 by simp
  have uu: "u = (if fetch_results ?evs = [] then u0
               else if last (fetch_results ?evs) then SCHEDULE_OK else SCHEDULE_NOK)"
    using u2 u1 fr by simp
  have lo: "False \<in> set (fetch_results ?evs) \<longrightarrow> ApiLogout \<in> set ?evs \<and> logintime s' = None"
    using fr f2 l2 bf by auto
  have ll: "logintime s' = None \<or> logintime s' = logintime s"
    using l2 bt bf by (cases b) auto
  show ?case
    unfolding cycle_of_def
    using tr sc uu lo ll rest tk cb ck by (intro conjI exI [of _ ?evs]) simp_all
qed

lemma login_frame:
  assumes "login env s = Inr (ok, s1)"
  shows "api s1 \<noteq> None \<and> ticks s \<le> ticks s1
         \<and> (\<exists>evs. trace s1 = trace s @ evs \<and> (evs = [] \<or> evs = [ApiLogin]))
         \<and> discovery_callback s1 = discovery_callback s
         \<and> discovery_cookie s1 = discovery_cookie s"
  using assms
  by (auto simp add: login_def datetime_now_def Let_def split: option.splits if_splits prod.splits)

lemma login_online:
  "api s = Some a \<Longrightarrow> api_is_online env a \<Longrightarrow> login env s = Inr (True, s)"
  by (simp add: login_def)

lemma finish_update_frame:
  assumes "finish_update env u s = Inr (u', s')"
  shows "u' = u \<and> ticks s < ticks s'
         \<and> (\<exists>evs. trace s' = trace s
                      @ TrackPointInUtcTime AsyncUpdate (utcnow env (ticks s) + timedelta_minutes u) # evs
                \<and> (evs = [] \<or> evs = [ApiLogout]))
         \<and> (logintime s = None \<longrightarrow> logintime s' = None)"
  using assms
  by (auto simp add: finish_update_def schedule_update_def dt_utcnow_def datetime_now_def
        logout_def Let_def split: option.splits if_splits sum.splits)

lemma async_update_cases:
  assumes "async_update env s = Inr (u, s')"
  obtains (login_failed) s1 where "login env s = Inr (False, s1)"
      "finish_update env SCHEDULE_NOK s1 = Inr (u, s')"
  | (no_inverters) s1 a where "login env s = Inr (True, s1)" "api s1 = Some a"
      "api_inverters env a = None" "u = SCHEDULE_NOK" "s' = s1"
  | (cycle) s1 a invs u2 s2 where "login env s = Inr (True, s1)" "api s1 = Some a"
      "api_inverters env a = Some invs" "update_inverters env invs SCHEDULE_NOK s1 = Inr (u2, s2)"
      "finish_update env u2 s2 = Inr (u, s')"
  using assms
  by (auto simp add: async_update_def split: sum.splits option.splits if_splits prod.splits)

lemma discover_inverters_frame:
  "api s \<noteq> None \<Longrightarrow>
     \<exists>caps' s'. discover_inverters env invs caps s = Inr (caps', s')
        \<and> logintime s' = logintime s \<and> ticks s' = ticks s
        \<and> discovery_callback s' = discovery_callback s
        \<and> discovery_cookie s' = discovery_cookie s
        \<and> (\<exists>evs. trace s' = trace s @ evs \<and> (\<forall>e\<in>set evs. \<exists>sn b. e = ApiFetch sn b))"
proof (induction invs arbitrary: caps s)
  case Nil
  then show ?case by simp
next
  case (Cons sn invs)
  from Cons.prems obtain a where a: "api s = Some a" by auto
  obtain data a' where f: "api_fetch_inverter_data env sn a = (data, a')"
    by (cases "api_fetch_inverter_data env sn a")
  let ?s1 = "s\<lparr>api := Some a', trace := trace s @ [ApiFetch sn (data \<noteq> None)]\<rparr>"
  let ?caps = "case data of None \<Rightarrow> caps | Some d \<Rightarrow> AList.update sn (keys d) caps"
  have eq: "discover_inverters env (sn # invs) caps s = discover_inverters env invs ?caps ?s1"
    using a f by simp
  have "api ?s1 \<noteq> None" by simp
  from Cons.IH [OF this, of ?caps] obtain caps' s' evs where
    r: "discover_inverters env invs ?caps ?s1 = Inr (caps', s')"
    and fr: "logintime s' = logintime ?s1" "ticks s' = ticks ?s1"
       "discovery_callback s' = discovery_callback ?s1"
       "discovery_cookie s' = discovery_cookie ?s1"
    and t: "trace s' = trace ?s1 @ evs" and e: "\<forall>e\<in>set evs. \<exists>sn b. e = ApiFetch sn b"
    by blast
  have "trace s' = trace s @ (ApiFetch sn (data \<noteq> None) # evs)
        \<and> (\<forall>e\<in>set (ApiFetch sn (data \<noteq> None) # evs). \<exists>sn b. e = ApiFetch sn b)"
    using t e by simp
  then have "\<exists>evs. trace s' = trace s @ evs \<and> (\<forall>e\<in>set evs. \<exists>sn b. e = ApiFetch sn b)"
    by (rule exI)
  with r fr show ?case unfolding eq by simp
qed

lemma do_discover_frame:
  assumes "login env s = Inr (ok, s1)"
  shows "\<exists>caps s'. do_discover env s = Inr (caps, s')
           \<and> (ok \<longrightarrow> logintime s' = Some (now env (ticks s1)))
           \<and> (\<not> ok \<longrightarrow> caps = [])
           \<and> ticks s \<le> ticks s'
           \<and> discovery_callback s' = discovery_callback s
           \<and> discovery_cookie s' = discovery_cookie s
           \<and> (\<exists>evs. trace s' = trace s1 @ evs \<and> (\<forall>e\<in>set evs. \<exists>sn b. e = ApiFetch sn b))"
proof (cases ok)
  case False
  with assms login_frame [OF assms] show ?thesis
    by (simp add: do_discover_def)
next
  case True
  let ?s3 = "s1\<lparr>ticks := Suc (ticks s1), logintime := Some (now env (ticks s1))\<rparr>"
  from login_frame [OF assms] obtain a where a: "api s1 = Some a"
    and k: "ticks s \<le> ticks s1"
    and c: "discovery_callback s1 = discovery_callback s" "discovery_cookie s1 = discovery_cookie s"
    by auto
  show ?thesis
  proof (cases "api_inverters env a")
    case None
    with assms True a k c show ?thesis
      by (simp add: do_discover_def datetime_now_def)
  next
    case (Some invs)
    have "api ?s3 \<noteq> None" using a by simp
    from discover_inverters_frame [OF this, of env invs "[]"] obtain caps s' where
      r: "discover_inverters env invs [] ?s3 = Inr (caps, s')"
      and fr: "logintime s' = logintime ?s3" "ticks s' = ticks ?s3"
       "discovery_callback s' = discovery_callback ?s3"
       "discovery_cookie s' = discovery_cookie ?s3"
      and t: "\<exists>evs. trace s' = trace ?s3 @ evs \<and> (\<forall>e\<in>set evs. \<exists>sn b. e = ApiFetch sn b)"
      by blast
    have "do_discover env s = Inr (caps, s')"
      using assms True a Some r by (simp add: do_discover_def datetime_now_def)
    with fr t True k c show ?thesis by simp
  qed
qed

section \<open>The update cycle\<close>

text \<open>
  When the list of inverters is unavailable, \<^verbatim>\<open>async_update\<close> returns before
  \<^verbatim>\<open>schedule_update\<close>: nothing is scheduled.
\<close>

lemma async_update_inverters_unavailable:
  assumes "login env s = Inr (True, s1)" and "api s1 = Some a" and "api_inverters env a = None"
  shows "async_update env s = Inr (SCHEDULE_NOK, s1) \<and> scheduled (new_events s s1) = []"
proof -
  from login_frame [OF assms(1)] obtain evs where "trace s1 = trace s @ evs"
    and "evs = [] \<or> evs = [ApiLogin]" by auto
  then have "scheduled (new_events s s1) = []"
    by (auto simp add: new_events_def scheduled_simps)
  with assms show ?thesis by (simp add: async_update_def)
qed

text \<open>
  C3, as stated: every update cycle schedules the next one 1 minute from now. A cycle whose
  fetch succeeds returns \<^verbatim>\<open>SCHEDULE_OK\<close> and schedules the next one 2 minutes after the
  clock reading (here the clock stands still, so every reading of the cycle is the same).
\<close>

theorem C3_two_minutes_counterexample:
  "map_sum id fst (async_update still_env (idle_service True)) = Inr SCHEDULE_OK
   \<and> map_sum id (scheduled \<circ> trace \<circ> snd) (async_update still_env (idle_service True))
       = Inr [(AsyncUpdate, utcnow still_env 0 + timedelta_minutes 2)]
   \<and> utcnow still_env 0 + timedelta_minutes 2 \<noteq> utcnow still_env 0 + timedelta_minutes 1"
  by (simp add: still_env_def test_env_def still_def ok_fetch_def snapshot_def
        idle_service_def test_service_def two_devices_def all_accepting_def
        accepting_def 
        async_update_def login_def logout_def update_inverter_def update_devices_def
        update_attribute_def notify_def data_updated_def finish_update_def
        schedule_update_def datetime_now_def dt_utcnow_def getattr_def keys_def
        hour_def minute_def timedelta_minutes_def timedelta_hours_def SCHEDULE_OK_def
        SCHEDULE_NOK_def HRS_BETWEEN_LOGIN_def scheduled_def)

text \<open>
  C3, amended: an update cycle that returns, and in which the login failed or the list of
  inverters was available, schedules exactly one next cycle, at the UTC clock reading taken
  when scheduling plus 2 minutes when the returned status is \<^verbatim>\<open>SCHEDULE_OK\<close> and plus
  1 minute when it is \<^verbatim>\<open>SCHEDULE_NOK\<close>, which it is whenever the login failed.
\<close>

theorem C3_reschedule:
  assumes "async_update env s = Inr (u, s')"
      and "login env s = Inr (ok, s1)"
      and "ok \<longrightarrow> (\<exists>a invs. api s1 = Some a \<and> api_inverters env a = Some invs)"
  shows "\<exists>n. ticks s \<le> n \<and> n < ticks s'
           \<and> scheduled (new_events s s')
               = [(AsyncUpdate, utcnow env n + timedelta_minutes (if u = SCHEDULE_OK then 2 else 1))]
           \<and> (u = SCHEDULE_OK \<or> u = SCHEDULE_NOK)
           \<and> (\<not> ok \<longrightarrow> u = SCHEDULE_NOK)"
  using assms(1)
proof (cases rule: async_update_cases)
  case (login_failed s1')
  with assms(2) have eq: "s1' = s1" "\<not> ok" by simp_all
  from login_frame [OF login_failed(1)] obtain evs1 where
    t1: "trace s1' = trace s @ evs1" and e1: "evs1 = [] \<or> evs1 = [ApiLogin]"
    and k1: "ticks s \<le> ticks s1'" by blast
  from finish_update_frame [OF login_failed(2)] obtain evs3 where u: "u = SCHEDULE_NOK"
    and t3: "trace s' = trace s1'
               @ TrackPointInUtcTime AsyncUpdate (utcnow env (ticks s1') + timedelta_minutes SCHEDULE_NOK) # evs3"
    and e3: "evs3 = [] \<or> evs3 = [ApiLogout]" and k3: "ticks s1' < ticks s'" by blast
  have "scheduled (new_events s s')
          = [(AsyncUpdate, utcnow env (ticks s1') + timedelta_minutes SCHEDULE_NOK)]"
    using t1 t3 e1 e3 by (auto simp add: new_events_def scheduled_simps scheduled_append)
  with u k1 k3 show ?thesis
    by (intro exI [of _ "ticks s1'"]) (simp add: SCHEDULE_OK_def SCHEDULE_NOK_def)
next
  case (no_inverters s1' a)
  with assms(2,3) show ?thesis by simp
next
  case (cycle s1' a invs u2 s2)
  from login_frame [OF cycle(1)] obtain evs1 where
    t1: "trace s1' = trace s @ evs1" and e1: "evs1 = [] \<or> evs1 = [ApiLogin]"
    and k1: "ticks s \<le> ticks s1'" by blast
  have a1: "api s1' \<noteq> None" using cycle(2) by simp
  from update_inverters_cycle [OF a1 cycle(4)] obtain evs2 where
    t2: "trace s2 = trace s1' @ evs2" and s2: "scheduled evs2 = []"
    and u2: "u2 = (if fetch_results evs2 = [] then SCHEDULE_NOK
               else if last (fetch_results evs2) then SCHEDULE_OK else SCHEDULE_NOK)"
    and k2: "ticks s1' \<le> ticks s2"
    unfolding cycle_of_def by blast
  from finish_update_frame [OF cycle(5)] obtain evs3 where u: "u = u2"
    and t3: "trace s' = trace s2
               @ TrackPointInUtcTime AsyncUpdate (utcnow env (ticks s2) + timedelta_minutes u2) # evs3"
    and e3: "evs3 = [] \<or> evs3 = [ApiLogout]" and k3: "ticks s2 < ticks s'" by blast
  have ne: "new_events s s' = evs1 @ evs2
              @ TrackPointInUtcTime AsyncUpdate (utcnow env (ticks s2) + timedelta_minutes u2) # evs3"
    using t1 t2 t3 by (simp add: new_events_def)
  have "scheduled (new_events s s')
          = [(AsyncUpdate, utcnow env (ticks s2) + timedelta_minutes u2)]"
    using e1 e3 s2 unfolding ne by (auto simp add: scheduled_append scheduled_simps)
  moreover have "ok" using cycle(1) assms(2) by simp
  ultimately show ?thesis using u u2 k1 k2 k3
    by (intro exI [of _ "ticks s2"]) (auto simp add: SCHEDULE_OK_def SCHEDULE_NOK_def)
qed

theorem C3_reschedule_witness:
  "(\<exists>u s'. async_update login_fails_env (idle_service False)
              = Inr (u, s')
         \<and> u = SCHEDULE_NOK
         \<and> scheduled (new_events (idle_service False) s') = [(AsyncUpdate, 25260000000)])
   \<and> (\<exists>u s'. async_update two_ok_env (idle_service True) = Inr (u, s')
         \<and> u = SCHEDULE_OK
         \<and> (\<exists>n. scheduled (new_events (idle_service True) s')
                   = [(AsyncUpdate, utcnow two_ok_env n + timedelta_minutes 2)]))"
proof -
  note fixtures = two_ok_env_def login_fails_env_def test_env_def nine_am_def still_def
    ok_fetch_def no_fetch_def snapshot_def idle_service_def test_service_def
    two_devices_def all_accepting_def accepting_def
  note cycle = async_update_def login_def logout_def update_inverter_def update_devices_def
    update_attribute_def notify_def data_updated_def finish_update_def
    schedule_update_def datetime_now_def dt_utcnow_def getattr_def keys_def
    hour_def minute_def timedelta_minutes_def timedelta_hours_def SCHEDULE_OK_def
    SCHEDULE_NOK_def HRS_BETWEEN_LOGIN_def
  let ?E = login_fails_env
  let ?S = "idle_service False"
  have lg: "login ?E ?S = Inr (False, ?S\<lparr>api := Some False, trace := [ApiLogin]\<rparr>)"
    by (simp add: fixtures login_def)
  have "map_sum id fst (async_update ?E ?S) = Inr SCHEDULE_NOK"
    by (simp add: fixtures cycle)
  then obtain u s' where r: "async_update ?E ?S = Inr (u, s')" and u: "u = SCHEDULE_NOK"
    by (cases "async_update ?E ?S") auto
  have a: "\<exists>u s'. async_update ?E ?S = Inr (u, s') \<and> u = SCHEDULE_NOK
         \<and> scheduled (new_events ?S s') = [(AsyncUpdate, 25260000000)]"
    using C3_reschedule [OF r lg] r u
    by (auto simp add: fixtures SCHEDULE_OK_def SCHEDULE_NOK_def timedelta_minutes_def)
  let ?T = "idle_service True"
  have lg2: "login two_ok_env ?T = Inr (True, ?T)"
    by (simp add: fixtures login_def)
  have iv: "True \<longrightarrow> (\<exists>a invs. api ?T = Some a \<and> api_inverters two_ok_env a = Some invs)"
    by (auto simp add: fixtures)
  have "map_sum id fst (async_update two_ok_env ?T) = Inr SCHEDULE_OK"
    by (simp add: fixtures cycle)
  then obtain u2 s2 where r2: "async_update two_ok_env ?T = Inr (u2, s2)" and u2: "u2 = SCHEDULE_OK"
    by (cases "async_update two_ok_env ?T") auto
  have b: "\<exists>u s'. async_update two_ok_env ?T = Inr (u, s') \<and> u = SCHEDULE_OK
         \<and> (\<exists>n. scheduled (new_events ?T s')
                   = [(AsyncUpdate, utcnow two_ok_env n + timedelta_minutes 2)])"
    using C3_reschedule [OF r2 lg2 iv] r2 u2 by auto
  from a b show ?thesis by blast
qed

text \<open>
  C4, as stated: all notifications of one update cycle carry one timestamp taken at the
  start of the cycle. With two devices and a clock that advances, the notifications for
  device \<open>A\<close> carry 09:00:00 and those for device \<open>B\<close> carry 09:00:02.
\<close>

theorem C4_per_device_counterexample:
  "map_sum id (trace \<circ> snd) (async_update two_ok_env (idle_service True))
   = Inr [ApiFetch ''A'' True,
          Notify 0 (PyInt 7) (Some 32400000000), DoUpdate 0 (PyInt 7) (Some 32400000000),
          ApiFetch ''B'' True,
          Notify 1 (PyInt 7) (Some 32402000000), DoUpdate 1 (PyInt 7) (Some 32402000000),
          TrackPointInUtcTime AsyncUpdate 25324000000]"
  by (simp add: two_ok_env_def test_env_def nine_am_def ok_fetch_def snapshot_def
        idle_service_def test_service_def two_devices_def all_accepting_def
        accepting_def 
        async_update_def login_def logout_def update_inverter_def update_devices_def
        update_attribute_def notify_def data_updated_def finish_update_def
        schedule_update_def datetime_now_def dt_utcnow_def getattr_def keys_def
        hour_def minute_def timedelta_minutes_def timedelta_hours_def SCHEDULE_OK_def
        SCHEDULE_NOK_def HRS_BETWEEN_LOGIN_def)

text \<open>
  C4, amended: within one round of the loop over the inverters, that is for one device,
  every notification (and every \<^verbatim>\<open>do_update\<close> it causes) carries the same timestamp, the
  clock reading taken right after that device's fetch returned.
\<close>

theorem C4_timestamp_per_device:
  assumes "update_inverter env sn s = Inr (u, s')"
  shows "\<forall>e\<in>set (new_events s s'). \<forall>t. event_stamp e = Some t \<longrightarrow> t = Some (now env (ticks s))"
proof -
  from update_inverter_round [OF assms] obtain b evs where
    t: "trace s' = trace s @ ApiFetch sn b # evs"
    and c: "if b then (\<forall>e\<in>set evs. event_stamp e = Some (Some (now env (ticks s))))
                     \<and> logintime s' = logintime s
           else evs = [ApiLogout] \<and> logintime s' = None"
    unfolding round_of_def by blast
  show ?thesis
    using t c by (cases b) (auto simp add: new_events_def event_stamp_def)
qed

theorem C4_timestamp_per_device_witness:
  "\<exists>u s'. update_inverter two_ok_env ''A'' (idle_service True) = Inr (u, s')
      \<and> new_events (idle_service True) s'
          = [ApiFetch ''A'' True, Notify 0 (PyInt 7) (Some 32400000000),
             DoUpdate 0 (PyInt 7) (Some 32400000000)]
      \<and> (\<forall>e\<in>set (new_events (idle_service True) s').
            \<forall>t. event_stamp e = Some t \<longrightarrow> t = Some (now two_ok_env 0))"
proof -
  note fixtures = two_ok_env_def test_env_def nine_am_def ok_fetch_def snapshot_def
    idle_service_def test_service_def two_devices_def all_accepting_def
    accepting_def
  note cycle = async_update_def login_def logout_def update_inverter_def update_devices_def
    update_attribute_def notify_def data_updated_def finish_update_def
    schedule_update_def datetime_now_def dt_utcnow_def getattr_def keys_def
    hour_def minute_def timedelta_minutes_def timedelta_hours_def SCHEDULE_OK_def
    SCHEDULE_NOK_def HRS_BETWEEN_LOGIN_def
  let ?S = "idle_service True"
  have "map_sum id (\<lambda>r. trace (snd r)) (update_inverter two_ok_env ''A'' ?S)
          = Inr [ApiFetch ''A'' True, Notify 0 (PyInt 7) (Some 32400000000),
                 DoUpdate 0 (PyInt 7) (Some 32400000000)]"
    by (simp add: fixtures cycle)
  then obtain u s' where r: "update_inverter two_ok_env ''A'' ?S = Inr (u, s')"
    and t: "trace s' = [ApiFetch ''A'' True, Notify 0 (PyInt 7) (Some 32400000000),
                        DoUpdate 0 (PyInt 7) (Some 32400000000)]"
    by (cases "update_inverter two_ok_env ''A'' ?S") auto
  have n: "new_events ?S s' = trace s'" "ticks ?S = 0"
    by (simp_all add: new_events_def fixtures)
  show ?thesis
    using C4_timestamp_per_device [OF r] r t n by auto
qed

text \<open>
  C7, as stated: a fetch that returns no data for some device makes the returned status
  \<^verbatim>\<open>SCHEDULE_NOK\<close>. When the fetch for \<open>A\<close> returns no data and the later fetch for
  \<open>B\<close> returns data, the returned status is \<^verbatim>\<open>SCHEDULE_OK\<close>.
\<close>

theorem C7_later_success_counterexample:
  "map_sum id fst (async_update fail_a_env (idle_service True)) = Inr SCHEDULE_OK
   \<and> map_sum id (fetch_results \<circ> trace \<circ> snd) (async_update fail_a_env (idle_service True))
       = Inr [False, True]
   \<and> SCHEDULE_OK \<noteq> SCHEDULE_NOK"
  by (simp add: fail_a_env_def test_env_def nine_am_def failing_a_def snapshot_def
        idle_service_def test_service_def two_devices_def all_accepting_def
        accepting_def 
        async_update_def login_def logout_def update_inverter_def update_devices_def
        update_attribute_def notify_def data_updated_def finish_update_def
        schedule_update_def datetime_now_def dt_utcnow_def getattr_def keys_def
        hour_def minute_def timedelta_minutes_def timedelta_hours_def SCHEDULE_OK_def
        SCHEDULE_NOK_def HRS_BETWEEN_LOGIN_def fetch_results_def)

text \<open>
  C7, amended: in an update cycle that returns, if some fetch returned no data then the
  API's logout is called during the cycle and the login timestamp is unset when the cycle
  returns; and the returned status is \<^verbatim>\<open>SCHEDULE_NOK\<close> exactly when no fetch was made or
  the last fetch of the cycle returned no data.
\<close>

theorem C7_fetch_failure:
  assumes "async_update env s = Inr (u, s')"
  shows "(False \<in> set (fetch_results (new_events s s'))
            \<longrightarrow> ApiLogout \<in> set (new_events s s') \<and> logintime s' = None)
         \<and> (u = SCHEDULE_NOK \<longleftrightarrow>
               fetch_results (new_events s s') = [] \<or> \<not> last (fetch_results (new_events s s')))"
  using assms
proof (cases rule: async_update_cases)
  case (login_failed s1)
  from login_frame [OF login_failed(1)] obtain evs1 where
    t1: "trace s1 = trace s @ evs1" and e1: "evs1 = [] \<or> evs1 = [ApiLogin]" by blast
  from finish_update_frame [OF login_failed(2)] obtain evs3 where u: "u = SCHEDULE_NOK"
    and t3: "trace s' = trace s1
               @ TrackPointInUtcTime AsyncUpdate (utcnow env (ticks s1) + timedelta_minutes SCHEDULE_NOK) # evs3"
    and e3: "evs3 = [] \<or> evs3 = [ApiLogout]" by blast
  have "fetch_results (new_events s s') = []"
    using t1 t3 e1 e3 by (auto simp add: new_events_def fetch_results_simps fetch_results_append)
  with u show ?thesis by simp
next
  case (no_inverters s1 a)
  from login_frame [OF no_inverters(1)] obtain evs1 where
    t1: "trace s1 = trace s @ evs1" and e1: "evs1 = [] \<or> evs1 = [ApiLogin]" by blast
  have "fetch_results (new_events s s') = []"
    using t1 e1 no_inverters(5) by (auto simp add: new_events_def fetch_results_simps)
  with no_inverters(4) show ?thesis by simp
next
  case (cycle s1 a invs u2 s2)
  from login_frame [OF cycle(1)] obtain evs1 where
    t1: "trace s1 = trace s @ evs1" and e1: "evs1 = [] \<or> evs1 = [ApiLogin]" by blast
  have a1: "api s1 \<noteq> None" using cycle(2) by simp
  from update_inverters_cycle [OF a1 cycle(4)] obtain evs2 where
    t2: "trace s2 = trace s1 @ evs2"
    and u2: "u2 = (if fetch_results evs2 = [] then SCHEDULE_NOK
               else if last (fetch_results evs2) then SCHEDULE_OK else SCHEDULE_NOK)"
    and f2: "False \<in> set (fetch_results evs2) \<longrightarrow> ApiLogout \<in> set evs2 \<and> logintime s2 = None"
    unfolding cycle_of_def by blast
  from finish_update_frame [OF cycle(5)] obtain evs3 where u: "u = u2"
    and t3: "trace s' = trace s2
               @ TrackPointInUtcTime AsyncUpdate (utcnow env (ticks s2) + timedelta_minutes u2) # evs3"
    and e3: "evs3 = [] \<or> evs3 = [ApiLogout]"
    and l3: "logintime s2 = None \<longrightarrow> logintime s' = None" by auto
  have ne: "new_events s s' = evs1 @ evs2
              @ TrackPointInUtcTime AsyncUpdate (utcnow env (ticks s2) + timedelta_minutes u2) # evs3"
    using t1 t2 t3 by (simp add: new_events_def)
  have fr: "fetch_results (new_events s s') = fetch_results evs2"
    using e1 e3 unfolding ne by (auto simp add: fetch_results_append fetch_results_simps)
  have "ApiLogout \<in> set evs2 \<Longrightarrow> ApiLogout \<in> set (new_events s s')"
    unfolding ne by simp
  with fr f2 l3 u u2 show ?thesis
    by (auto simp add: SCHEDULE_OK_def SCHEDULE_NOK_def)
qed

theorem C7_fetch_failure_witness:
  "\<exists>u s'. async_update fail_b_env (idle_service True)
             = Inr (u, s')
      \<and> fetch_results (new_events (idle_service True) s') = [True, False]
      \<and> ApiLogout \<in> set (new_events (idle_service True) s')
      \<and> logintime s' = None \<and> u = SCHEDULE_NOK"
proof -
  note fixtures = fail_b_env_def test_env_def nine_am_def failing_b_def snapshot_def
    idle_service_def test_service_def two_devices_def all_accepting_def
    accepting_def
  note cycle = async_update_def login_def logout_def update_inverter_def update_devices_def
    update_attribute_def notify_def data_updated_def finish_update_def
    schedule_update_def datetime_now_def dt_utcnow_def getattr_def keys_def
    hour_def minute_def timedelta_minutes_def timedelta_hours_def SCHEDULE_OK_def
    SCHEDULE_NOK_def HRS_BETWEEN_LOGIN_def
  let ?E = fail_b_env
  let ?S = "idle_service True"
  have "map_sum id (\<lambda>r. fetch_results (trace (snd r))) (async_update ?E ?S) = Inr [True, False]"
    by (simp add: fixtures cycle fetch_results_def)
  then obtain u s' where r: "async_update ?E ?S = Inr (u, s')"
    and t: "fetch_results (trace s') = [True, False]"
    by (cases "async_update ?E ?S") auto
  have n: "new_events ?S s' = trace s'"
    by (simp add: new_events_def fixtures)
  show ?thesis
    using C7_fetch_failure [OF r] r t n by auto
qed

section \<open>Discovery\<close>

text \<open>
  C8, as stated: a non-empty discovery result makes the service invoke the registered
  callback. With a callback and an empty dictionary as cookie registered, the result is not
  empty and the callback is not invoked: the trace holds the two fetches only.
\<close>

theorem C8_empty_cookie_counterexample:
  "discovery_callback (registered_service []) = Some 7
   \<and> discovery_cookie (registered_service []) = Some []
   \<and> map_sum id fst (do_discover two_ok_env (registered_service []))
       = Inr [(''A'', [''serial'', ''state'', ''energyToday'']),
              (''B'', [''serial'', ''state'', ''energyToday''])]
   \<and> map_sum id trace (async_discover two_ok_env (registered_service []))
       = Inr [ApiFetch ''A'' True, ApiFetch ''B'' True]"
  by (simp add: two_ok_env_def test_env_def nine_am_def ok_fetch_def snapshot_def
        registered_service_def idle_service_def test_service_def two_devices_def
        all_accepting_def accepting_def do_discover_def async_discover_def schedule_discovery_def RETRY_DELAY_SECONDS_def login_def datetime_now_def keys_def)

text \<open>
  C8, amended: when the discovery result is empty, exactly one discovery is scheduled, 60
  seconds after the UTC clock reading taken when scheduling, no callback is invoked, and the
  callback and the cookie stay as they were; when the result is not empty and a callback and
  a non-empty cookie are registered, the callback is invoked once with the result and the
  cookie, nothing is scheduled, and both remain registered; when the result is not empty and
  no callback is registered, or no cookie, or an empty cookie, no callback is invoked,
  nothing is scheduled, and the callback and the cookie stay as they were.
\<close>

theorem C8_discovery_retry:
  assumes "do_discover env s = Inr (caps, s1)"
  shows "(caps = [] \<longrightarrow>
            (\<exists>s'. async_discover env s = Inr s'
               \<and> scheduled (new_events s s')
                   = [(AsyncDiscover, utcnow env (ticks s1) + timedelta_seconds 60)]
               \<and> callbacks (new_events s s') = []
               \<and> discovery_callback s' = discovery_callback s
               \<and> discovery_cookie s' = discovery_cookie s))
         \<and> (caps \<noteq> [] \<and> discovery_callback s = Some cb \<and> discovery_cookie s = Some ck \<and> ck \<noteq> []
              \<longrightarrow> (\<exists>s'. async_discover env s = Inr s'
                     \<and> callbacks (new_events s s') = [(cb, caps, ck)]
                     \<and> scheduled (new_events s s') = []
                     \<and> discovery_callback s' = Some cb
                     \<and> discovery_cookie s' = Some ck))
         \<and> (caps \<noteq> []
              \<and> (discovery_callback s = None \<or> discovery_cookie s = None
                   \<or> discovery_cookie s = Some [])
              \<longrightarrow> (\<exists>s'. async_discover env s = Inr s'
                     \<and> callbacks (new_events s s') = []
                     \<and> scheduled (new_events s s') = []
                     \<and> discovery_callback s' = discovery_callback s
                     \<and> discovery_cookie s' = discovery_cookie s))"
proof -
  from assms obtain ok s0 where lg: "login env s = Inr (ok, s0)"
    by (auto simp add: do_discover_def split: sum.splits)
  from login_frame [OF lg] obtain evs0 where t0: "trace s0 = trace s @ evs0"
    and e0: "evs0 = [] \<or> evs0 = [ApiLogin]" by auto
  from do_discover_frame [OF lg] assms obtain evs1 where
    c: "discovery_callback s1 = discovery_callback s" "discovery_cookie s1 = discovery_cookie s"
    and t1: "trace s1 = trace s0 @ evs1" and e1: "\<forall>e\<in>set evs1. \<exists>sn b. e = ApiFetch sn b"
    by auto
  have ao: "api_calls_only (evs0 @ evs1)"
    using e0 e1 by (auto simp add: api_calls_only_def)
  have t: "trace s1 = trace s @ (evs0 @ evs1)" using t0 t1 by simp
  note z = api_calls_only_scheduled [OF ao] api_calls_only_callbacks [OF ao]
  show ?thesis
    using assms c t z
    by (auto simp add: async_discover_def schedule_discovery_def dt_utcnow_def new_events_def
          scheduled_append callbacks_append scheduled_def callbacks_def RETRY_DELAY_SECONDS_def
          split: option.splits)
qed

theorem C8_discovery_retry_witness:
  "(\<exists>s'. async_discover quiet_env
            (registered_service [(''entry'', PyInt 1)]) = Inr s'
        \<and> scheduled (new_events (registered_service [(''entry'', PyInt 1)]) s')
            = [(AsyncDiscover, 25261000000)]
        \<and> discovery_callback s' = Some 7
        \<and> discovery_cookie s' = Some [(''entry'', PyInt 1)])
   \<and> (\<exists>s'. async_discover two_ok_env (registered_service [(''entry'', PyInt 1)]) = Inr s'
        \<and> callbacks (new_events (registered_service [(''entry'', PyInt 1)]) s')
            = [(7, [(''A'', [''serial'', ''state'', ''energyToday'']),
                    (''B'', [''serial'', ''state'', ''energyToday''])],
                [(''entry'', PyInt 1)])]
        \<and> discovery_callback s' = Some 7
        \<and> discovery_cookie s' = Some [(''entry'', PyInt 1)])
   \<and> discovery_cookie (registered_service []) = Some []
   \<and> (\<exists>s'. async_discover two_ok_env (registered_service []) = Inr s'
        \<and> callbacks (new_events (registered_service []) s') = []
        \<and> scheduled (new_events (registered_service []) s') = []
        \<and> discovery_callback s' = Some 7
        \<and> discovery_cookie s' = Some [])"
proof -
  note fixtures = quiet_env_def two_ok_env_def test_env_def nine_am_def ok_fetch_def
    no_fetch_def snapshot_def registered_service_def idle_service_def
    test_service_def two_devices_def all_accepting_def accepting_def
  note discovery = do_discover_def async_discover_def schedule_discovery_def RETRY_DELAY_SECONDS_def
  let ?E = quiet_env
  let ?S = "registered_service [(''entry'', PyInt 1)]"
  have "map_sum id (\<lambda>r. (fst r, ticks (snd r))) (do_discover ?E ?S) = Inr ([], 1)"
    by (simp add: fixtures discovery login_def datetime_now_def)
  then obtain s1 where d: "do_discover ?E ?S = Inr ([], s1)" and k: "ticks s1 = 1"
    by (cases "do_discover ?E ?S") auto
  have a: "\<exists>s'. async_discover ?E ?S = Inr s'
        \<and> scheduled (new_events ?S s') = [(AsyncDiscover, 25261000000)]
        \<and> discovery_callback s' = Some 7
        \<and> discovery_cookie s' = Some [(''entry'', PyInt 1)]"
    using C8_discovery_retry [OF d] k
    by (auto simp add: fixtures timedelta_seconds_def)
  let ?caps = "[(''A'', [''serial'', ''state'', ''energyToday'']),
                (''B'', [''serial'', ''state'', ''energyToday''])]"
  have "map_sum id fst (do_discover two_ok_env ?S) = Inr ?caps"
    by (simp add: fixtures discovery login_def datetime_now_def keys_def)
  then obtain s2 where d2: "do_discover two_ok_env ?S = Inr (?caps, s2)"
    by (cases "do_discover two_ok_env ?S") auto
  have b: "\<exists>s'. async_discover two_ok_env ?S = Inr s'
        \<and> callbacks (new_events ?S s') = [(7, ?caps, [(''entry'', PyInt 1)])]
        \<and> discovery_callback s' = Some 7
        \<and> discovery_cookie s' = Some [(''entry'', PyInt 1)]"
    using C8_discovery_retry [OF d2, of 7 "[(''entry'', PyInt 1)]"]
    by (auto simp add: fixtures)
  let ?R = "registered_service []"
  have "map_sum id fst (do_discover two_ok_env ?R) = Inr ?caps"
    by (simp add: fixtures discovery login_def datetime_now_def keys_def)
  then obtain s3 where d3: "do_discover two_ok_env ?R = Inr (?caps, s3)"
    by (cases "do_discover two_ok_env ?R") auto
  have ck: "discovery_cookie ?R = Some []" "discovery_callback ?R = Some 7"
    by (simp_all add: fixtures)
  have c: "\<exists>s'. async_discover two_ok_env ?R = Inr s'
        \<and> callbacks (new_events ?R s') = []
        \<and> scheduled (new_events ?R s') = []
        \<and> discovery_callback s' = Some 7
        \<and> discovery_cookie s' = Some []"
    using C8_discovery_retry [OF d3] ck by auto
  from a b c ck show ?thesis by blast
qed

text \<open>
  C10: whenever the session check of \<^verbatim>\<open>_do_discover\<close> succeeds, the discovery returns and
  the stored login timestamp is the clock reading taken right after the check; when the
  API was online already, the check changes nothing and no login call is made during the
  discovery, and the timestamp is overwritten all the same.
\<close>

theorem C10_discovery_refreshes_logintime:
  assumes "login env s = Inr (True, s1)"
  shows "\<exists>caps s'. do_discover env s = Inr (caps, s')
           \<and> logintime s' = Some (now env (ticks s1))
           \<and> (\<forall>a. api s = Some a \<and> api_is_online env a
                 \<longrightarrow> s1 = s \<and> ApiLogin \<notin> set (new_events s s'))"
proof -
  from do_discover_frame [OF assms] obtain caps s' evs where
    d: "do_discover env s = Inr (caps, s')"
    and l: "logintime s' = Some (now env (ticks s1))"
    and t: "trace s' = trace s1 @ evs" and e: "\<forall>e\<in>set evs. \<exists>sn b. e = ApiFetch sn b"
    by auto
  have "s1 = s \<and> ApiLogin \<notin> set (new_events s s')"
    if "api s = Some a" "api_is_online env a" for a
  proof -
    from login_online [OF that] assms have "s1 = s" by simp
    with t e show ?thesis by (auto simp add: new_events_def)
  qed
  with d l show ?thesis by blast
qed

theorem C10_discovery_refreshes_logintime_witness:
  "login two_ok_env (registered_service []) = Inr (True, registered_service [])
   \<and> logintime (registered_service []) = Some 0
   \<and> (\<exists>caps s'. do_discover two_ok_env (registered_service []) = Inr (caps, s')
         \<and> logintime s' = Some 32400000000
         \<and> ApiLogin \<notin> set (new_events (registered_service []) s'))"
proof -
  note fixtures = two_ok_env_def test_env_def nine_am_def ok_fetch_def snapshot_def
    registered_service_def idle_service_def test_service_def two_devices_def
    all_accepting_def accepting_def
  let ?S = "registered_service []"
  have lg: "login two_ok_env ?S = Inr (True, ?S)"
    by (simp add: fixtures login_def)
  have on: "api ?S = Some True \<and> api_is_online two_ok_env True" "ticks ?S = 0"
    "now two_ok_env 0 = 32400000000" "logintime ?S = Some 0"
    by (simp_all add: fixtures)
  show ?thesis
    using C10_discovery_refreshes_logintime [OF lg] lg on by auto
qed

section \<open>A service without an API\<close>

text \<open>
  C9: constructed from a configuration that is neither a \<^verbatim>\<open>GinlongConfig\<close> nor a
  \<^verbatim>\<open>SoliscloudConfig\<close>, the service has no \<^verbatim>\<open>_api\<close>; and in every state without
  \<^verbatim>\<open>_api\<close>, reading the status, \<^verbatim>\<open>_login\<close>, \<^verbatim>\<open>_logout\<close>, \<^verbatim>\<open>async_update\<close>,
  \<^verbatim>\<open>_do_discover\<close> and \<^verbatim>\<open>async_discover\<close> raise \<^verbatim>\<open>AttributeError\<close>.
\<close>

theorem C9_no_api:
  "api (init env OtherConfig objs) = None
   \<and> (\<forall>s. api s = None \<longrightarrow>
          status env s = Inl (AttributeError ''_api'')
        \<and> login env s = Inl (AttributeError ''_api'')
        \<and> logout env s = Inl (AttributeError ''_api'')
        \<and> async_update env s = Inl (AttributeError ''_api'')
        \<and> do_discover env s = Inl (AttributeError ''_api'')
        \<and> async_discover env s = Inl (AttributeError ''_api''))"
  by (simp add: init_def status_def login_def logout_def async_update_def do_discover_def
        async_discover_def)

theorem C9_no_api_witness:
  "api (init two_ok_env OtherConfig all_accepting) = None
   \<and> status two_ok_env (init two_ok_env OtherConfig all_accepting) = Inl (AttributeError ''_api'')
   \<and> login two_ok_env (init two_ok_env OtherConfig all_accepting) = Inl (AttributeError ''_api'')
   \<and> async_update two_ok_env (init two_ok_env OtherConfig all_accepting)
       = Inl (AttributeError ''_api'')"
  using C9_no_api [of two_ok_env all_accepting] by blast

end
